theory Spec2Isabelle
  imports Main "HOL-Library.Sublist"
begin

section \<open>JavaScript strings\<close>

text \<open>
  A JavaScript string is a sequence of code units. The model is over \<^typ>\<open>string\<close>:
  every \<^typ>\<open>char\<close> stands for the code unit with the same number, so the model covers
  texts whose code units are below 256. On that range the white space of \<open>\s\<close> and of
  \<open>trim\<close> is U+0009 to U+000D, U+0020 and U+00A0, the line terminators are U+000A and
  U+000D, and the word characters of \<open>\w\<close> and \<open>\b\<close> are the ASCII letters, the digits
  and the underscore.
\<close>

definition isLineTerminator :: "char \<Rightarrow> bool" where
  "isLineTerminator c = (c = CHR 0x0A \<or> c = CHR 0x0D)"

definition isSpace :: "char \<Rightarrow> bool" where
  "isSpace c = (c = CHR 0x20 \<or> c = CHR 0x0A \<or> c = CHR 0x09 \<or> c = CHR 0x0D
     \<or> c = CHR 0x0B \<or> c = CHR 0x0C \<or> c = CHR 0xA0)"

definition isDigit :: "char \<Rightarrow> bool" where
  "isDigit c = (let n = (of_char c :: int) in 48 \<le> n \<and> n \<le> 57)"

definition isWord :: "char \<Rightarrow> bool" where
  "isWord c = (let n = (of_char c :: int) in
     (97 \<le> n \<and> n \<le> 122) \<or> (65 \<le> n \<and> n \<le> 90) \<or> (48 \<le> n \<and> n \<le> 57) \<or> n = 95)"

text \<open>\<open>String.prototype.toLowerCase\<close> on code units below 256: the ASCII capitals and the
  Latin-1 capitals U+00C0 to U+00DE (U+00D7, the multiplication sign, apart) move up by 32.\<close>

definition toLowerChar :: "char \<Rightarrow> char" where
  "toLowerChar c = (let n = (of_char c :: int) in
     if (65 \<le> n \<and> n \<le> 90) \<or> (192 \<le> n \<and> n \<le> 222 \<and> n \<noteq> 215) then char_of (n + 32) else c)"

definition toLowerCase :: "string \<Rightarrow> string" where
  "toLowerCase s = map toLowerChar s"

text \<open>\<open>s.startsWith(p)\<close> and \<open>s.includes(p)\<close>.\<close>

fun startsWith :: "string \<Rightarrow> string \<Rightarrow> bool" where
  "startsWith s [] = True"
| "startsWith [] (y # ys) = False"
| "startsWith (x # xs) (y # ys) = (x = y \<and> startsWith xs ys)"

fun includesStr :: "string \<Rightarrow> string \<Rightarrow> bool" where
  "includesStr [] p = (p = [])"
| "includesStr (x # xs) p = (startsWith (x # xs) p \<or> includesStr xs p)"

text \<open>\<open>s.trim()\<close>.\<close>

definition trim :: "string \<Rightarrow> string" where
  "trim s = rev (dropWhile isSpace (rev (dropWhile isSpace s)))"

text \<open>\<open>s.split(d)\<close> for a separator of one character: the fields between the separators,
  the empty ones included; the empty string gives one empty field.\<close>

fun splitOn :: "char \<Rightarrow> string \<Rightarrow> string list" where
  "splitOn d [] = [[]]"
| "splitOn d (c # cs) =
     (if c = d then [] # splitOn d cs
      else (case splitOn d cs of [] \<Rightarrow> [[c]] | w # ws \<Rightarrow> (c # w) # ws))"

text \<open>\<open>s.split(/\s+/)\<close>: the separator is a maximal run of white space, so the fields are
  the texts between the runs; a run at the start or at the end leaves an empty field there.
  The first argument collects the current field, reversed.\<close>

function splitWsFrom :: "string \<Rightarrow> string \<Rightarrow> string list" where
  "splitWsFrom cur [] = [rev cur]"
| "splitWsFrom cur (c # cs) =
     (if isSpace c then rev cur # splitWsFrom [] (dropWhile isSpace cs)
      else splitWsFrom (c # cur) cs)"
  by pat_completeness auto
termination
  by (relation "measure (\<lambda>(cur, s). length s)")
     (auto simp: less_Suc_eq_le length_dropWhile_le)

definition splitWs :: "string \<Rightarrow> string list" where
  "splitWs s = splitWsFrom [] s"

text \<open>\<open>s.slice(a, b)\<close>: a negative argument counts from the end, both are clamped to the
  string, and an end before the start gives the empty string.\<close>

definition slice :: "string \<Rightarrow> int \<Rightarrow> int \<Rightarrow> string" where
  "slice s a b =
     (let n = int (length s);
          from = (if a < 0 then max (n + a) 0 else min a n);
          to = (if b < 0 then max (n + b) 0 else min b n)
      in take (nat (to - from)) (drop (nat from) s))"

text \<open>\<open>x || d\<close> on strings: the empty string is falsy, as \<open>undefined\<close> is.\<close>

definition orElse :: "string \<Rightarrow> string \<Rightarrow> string" where
  "orElse x d = (if x = [] then d else x)"

section \<open>JavaScript regular expressions\<close>

text \<open>
  The regular expressions of the analyzer use literals, character classes, \<open>^\<close> under the
  \<open>m\<close> flag, \<open>\b\<close>, sequence, alternation, the greedy quantifiers \<open>*\<close>, \<open>+\<close> and \<open>?\<close>,
  and capture groups. \<open>Chr P\<close> is a character class, \<open>Lit s\<close> a literal text, \<open>Bol\<close> is
  \<open>^\<close> with the \<open>m\<close> flag, \<open>WordB\<close> is \<open>\b\<close>, \<open>Group i r\<close> is the \<open>i\<close>-th pair of
  capturing parentheses; a non-capturing groupAt is its content.
\<close>

datatype regex =
    Chr "char \<Rightarrow> bool"
  | Lit string
  | Bol
  | WordB
  | Seq regex regex
  | Alt regex regex
  | Star regex
  | Opt regex
  | Group nat regex

definition Plus :: "regex \<Rightarrow> regex" where
  "Plus r = Seq r (Star r)"

fun seqs :: "regex list \<Rightarrow> regex" where
  "seqs [] = Lit []"
| "seqs [r] = r"
| "seqs (r # rs) = Seq r (seqs rs)"

fun alts :: "regex list \<Rightarrow> regex" where
  "alts [] = Chr (\<lambda>c. False)"
| "alts [r] = r"
| "alts (r # rs) = Alt r (alts rs)"

text \<open>
  The state of the backtracking matcher: \<open>prev\<close> is the character before the current
  position (none at the start of the text), \<open>rest\<close> the text from the current position on,
  \<open>left\<close> the number of characters of \<open>rest\<close> (an integer: it is only counted down
  and compared), \<open>acc\<close> the characters consumed since the
  start of the match or of the innermost open groupAt, last first, and \<open>caps\<close> the captures,
  the latest first.
\<close>

datatype mstate =
  MState (prev: "char option") (left: int) (rest: string) (acc: string)
    (caps: "(nat \<times> string) list")

primrec groupsOf :: "regex \<Rightarrow> nat list" where
  "groupsOf (Chr P) = []"
| "groupsOf (Lit s) = []"
| "groupsOf Bol = []"
| "groupsOf WordB = []"
| "groupsOf (Seq x y) = groupsOf x @ groupsOf y"
| "groupsOf (Alt x y) = groupsOf x @ groupsOf y"
| "groupsOf (Star x) = groupsOf x"
| "groupsOf (Opt x) = groupsOf x"
| "groupsOf (Group i x) = i # groupsOf x"

text \<open>Every iteration of a quantifier starts with the captures of the groups inside it
  undefined.\<close>

fun clearCaps :: "nat list \<Rightarrow> mstate \<Rightarrow> mstate" where
  "clearCaps [] st = st"
| "clearCaps (g # gs) (MState p n r a c) =
     MState p n r a (filter (\<lambda>(i, s). i \<notin> set (g # gs)) c)"

fun lit :: "string \<Rightarrow> mstate \<Rightarrow> mstate list" where
  "lit [] st = [st]"
| "lit (x # xs) (MState p n [] a c) = []"
| "lit (x # xs) (MState p n (y # ys) a c) =
     (if x = y then lit xs (MState (Some y) (n - 1) ys (y # a) c) else [])"

text \<open>
  \<open>ms r st\<close> lists the states in which a match of \<open>r\<close> from \<open>st\<close> can end, in the order
  in which backtracking tries them: the first alternative before the second, one more
  iteration of a greedy quantifier before stopping. The head of the list is the match that
  JavaScript reports. An iteration of \<open>*\<close> or \<open>?\<close> that consumes nothing is rejected, as
  RepeatMatcher does.
\<close>

function ms :: "regex \<Rightarrow> mstate \<Rightarrow> mstate list" where
  "ms (Chr P) (MState p n r a c) =
     (case r of [] \<Rightarrow> []
      | x # xs \<Rightarrow> if P x then [MState (Some x) (n - 1) xs (x # a) c] else [])"
| "ms (Lit s) st = lit s st"
| "ms Bol (MState p n r a c) =
     (case p of None \<Rightarrow> [MState p n r a c]
      | Some x \<Rightarrow> if isLineTerminator x then [MState p n r a c] else [])"
| "ms WordB (MState p n r a c) =
     (let wb = (case p of None \<Rightarrow> False | Some x \<Rightarrow> isWord x);
          wa = (case r of [] \<Rightarrow> False | y # ys \<Rightarrow> isWord y)
      in if wb \<noteq> wa then [MState p n r a c] else [])"
| "ms (Seq x y) st = concat (map (ms y) (ms x st))"
| "ms (Alt x y) st = ms x st @ ms y st"
| "ms (Star x) st =
     concat (map (\<lambda>st'. if 0 \<le> left st' \<and> left st' < left st then ms (Star x) st' else [])
                 (ms x (clearCaps (groupsOf x) st))) @ [st]"
| "ms (Opt x) st =
     filter (\<lambda>st'. left st' < left st) (ms x (clearCaps (groupsOf x) st)) @ [st]"
| "ms (Group i x) (MState p n r a c) =
     map (\<lambda>st'. case st' of MState p' n' r' a' c' \<Rightarrow>
                   MState p' n' r' (a' @ a) ((i, rev a') # c'))
         (ms x (MState p n r [] c))"
  by pat_completeness auto
termination
  by (relation "measures [\<lambda>(r, st). size r, \<lambda>(r, st). nat (left st)]") auto

text \<open>The equation of \<open>Star\<close> calls \<open>ms\<close> on \<open>Star\<close> again: it is unfolded by hand.\<close>

declare ms.simps(7) [simp del]

text \<open>A match: \<open>index\<close> is \<open>m.index\<close>, \<open>m0\<close> is \<open>m[0]\<close>, and \<open>groupAt m i\<close> is \<open>m[i]\<close>,
  \<open>None\<close> for \<open>undefined\<close>.\<close>

datatype rmatch = RMatch (index: nat) (m0: string) (groups: "(nat \<times> string) list")

definition groupAt :: "rmatch \<Rightarrow> nat \<Rightarrow> string option" where
  "groupAt m i = map_of (groups m) i"

text \<open>\<open>m[i]\<close> for a groupAt that is part of every match of its expression.\<close>

definition grp :: "rmatch \<Rightarrow> nat \<Rightarrow> string" where
  "grp m i = (case groupAt m i of None \<Rightarrow> [] | Some s \<Rightarrow> s)"

text \<open>
  \<open>s.matchAll(r)\<close> for a global \<open>r\<close>, from the position \<open>i\<close> on: the leftmost match, then the
  search goes on where the match ended, one position further when the match was empty.
  \<open>skip\<close> counts the positions that the last match still covers.
\<close>

fun matchAllFrom :: "regex \<Rightarrow> char option \<Rightarrow> nat \<Rightarrow> int \<Rightarrow> nat \<Rightarrow> string \<Rightarrow> rmatch list" where
  "matchAllFrom r p i n skip [] =
     (if 0 < skip then []
      else (case ms r (MState p n [] [] []) of
              [] \<Rightarrow> []
            | st # sts \<Rightarrow> [RMatch i (rev (acc st)) (caps st)]))"
| "matchAllFrom r p i n skip (x # xs) =
     (if 0 < skip then matchAllFrom r (Some x) (Suc i) (n - 1) (skip - 1) xs
      else (case ms r (MState p n (x # xs) [] []) of
              [] \<Rightarrow> matchAllFrom r (Some x) (Suc i) (n - 1) 0 xs
            | st # sts \<Rightarrow>
                RMatch i (rev (acc st)) (caps st)
                  # matchAllFrom r (Some x) (Suc i) (n - 1) (length (acc st) - 1) xs))"

definition matchAll :: "regex \<Rightarrow> string \<Rightarrow> rmatch list" where
  "matchAll r s = matchAllFrom r None 0 (int (length s)) 0 s"

text \<open>\<open>s.match(r)\<close> for an \<open>r\<close> that is not global: the leftmost match.\<close>

fun searchFrom :: "regex \<Rightarrow> char option \<Rightarrow> nat \<Rightarrow> int \<Rightarrow> string \<Rightarrow> rmatch option" where
  "searchFrom r p i n [] =
     (case ms r (MState p n [] [] []) of
        [] \<Rightarrow> None
      | st # sts \<Rightarrow> Some (RMatch i (rev (acc st)) (caps st)))"
| "searchFrom r p i n (x # xs) =
     (case ms r (MState p n (x # xs) [] []) of
        [] \<Rightarrow> searchFrom r (Some x) (Suc i) (n - 1) xs
      | st # sts \<Rightarrow> Some (RMatch i (rev (acc st)) (caps st)))"

definition jsMatch :: "string \<Rightarrow> regex \<Rightarrow> rmatch option" where
  "jsMatch s r = searchFrom r None 0 (int (length s)) s"

section \<open>The analysis record\<close>

text \<open>
  The interfaces of \<open>solidityParser.ts\<close>. Several of them have a field \<open>name\<close>,
  \<open>typeName\<close>, \<open>visibility\<close> or \<open>parameters\<close>; the fields of a record carry a prefix
  here where the name is used twice (\<open>sv_\<close> for a state variable, \<open>fn_\<close> for a function,
  \<open>ev_\<close> for an event, \<open>p_\<close> and \<open>ep_\<close> for their parameters, \<open>c_\<close> for a contract).
  \<open>functions\<close> and \<open>imports\<close> are keywords of Isabelle: the fields are \<open>functions'\<close>
  and \<open>imports'\<close>.
\<close>

record StateVariable =
  sv_name :: string
  sv_typeName :: string
  sv_visibility :: string
  sv_constant :: bool
  sv_immutable :: bool

record Param =
  p_name :: string
  p_typeName :: string

record FunctionDef =
  fn_name :: string
  fn_visibility :: string
  stateMutability :: string
  parameters :: "Param list"
  returnParameters :: "Param list"
  isConstructor :: bool
  isModifier :: bool

record EventParam =
  ep_name :: string
  ep_typeName :: string
  indexed :: bool

record EventDef =
  ev_name :: string
  ev_parameters :: "EventParam list"

record ContractDef =
  c_name :: string
  kind :: string
  baseContracts :: "string list"
  stateVariables :: "StateVariable list"
  functions' :: "FunctionDef list"
  events :: "EventDef list"

datatype complexity = Low | Medium | High

record ParsedContract =
  contracts :: "ContractDef list"
  pragmaVersion :: string
  imports' :: "string list"
  isERC20 :: bool
  isERC721 :: bool
  hasOwnable :: bool
  hasAccessControl :: bool
  hasMappings :: bool
  hasEvents :: bool
  complexity :: complexity
  lineCount :: nat
  errors :: "string list"

section \<open>buildResult\<close>

definition buildResult ::
  "ContractDef list \<Rightarrow> string \<Rightarrow> string list \<Rightarrow> string \<Rightarrow> string list \<Rightarrow> ParsedContract" where
  "buildResult cs pragma imps source errs =
     (let allBases = concat (map (\<lambda>c. map toLowerCase (baseContracts c)) cs);
          allFns = concat (map (\<lambda>c. map (\<lambda>f. toLowerCase (fn_name f)) (functions' c)) cs);
          srcLower = toLowerCase source;
          totalFns = foldl (\<lambda>s c. s + length (functions' c)) 0 cs;
          totalVars = foldl (\<lambda>s c. s + length (stateVariables c)) 0 cs
      in \<lparr> contracts = cs,
           pragmaVersion = pragma,
           imports' = imps,
           isERC20 = (''transfer'' \<in> set allFns \<and> ''approve'' \<in> set allFns
                      \<and> ''transferfrom'' \<in> set allFns),
           isERC721 = (''safetransferfrom'' \<in> set allFns \<or> includesStr srcLower ''erc721''),
           hasOwnable = (list_ex (\<lambda>b. includesStr b ''ownable'') allBases
                         \<or> includesStr srcLower ''ownable''),
           hasAccessControl = (includesStr srcLower ''accesscontrol''
                               \<or> includesStr srcLower ''roles''),
           hasMappings = includesStr source ''mapping('',
           hasEvents = list_ex (\<lambda>c. 0 < length (events c)) cs,
           complexity = (if 15 < totalFns \<or> 10 < totalVars then High
                           else if 6 < totalFns then Medium else Low),
           lineCount = length (splitOn (CHR 0x0A) source),
           errors = errs \<rparr>)"

section \<open>The regular expressions of regexFallbackParser\<close>

text \<open>\<open>/pragma\s+solidity\s+([^;]+);/\<close>\<close>

definition pragmaRegex :: regex where
  "pragmaRegex = seqs [Lit ''pragma'', Plus (Chr isSpace), Lit ''solidity'', Plus (Chr isSpace),
     Group 1 (Plus (Chr (\<lambda>c. c \<noteq> CHR '';''))), Lit '';'']"

text \<open>\<open>/import\s+["']([^"']+)["']/g\<close>\<close>

definition importRegex :: regex where
  "importRegex = seqs [Lit ''import'', Plus (Chr isSpace),
     Chr (\<lambda>c. c = CHR 0x22 \<or> c = CHR 0x27),
     Group 1 (Plus (Chr (\<lambda>c. \<not> (c = CHR 0x22 \<or> c = CHR 0x27)))),
     Chr (\<lambda>c. c = CHR 0x22 \<or> c = CHR 0x27)]"

text \<open>\<open>/(?:^|\n)\s*(contract|interface|library)\s+(\w+)(?:\s+is\s+([\w\s,]+))?\s*\{/gm\<close>\<close>

definition contractRegex :: regex where
  "contractRegex = seqs [Alt Bol (Lit [CHR 0x0A]), Star (Chr isSpace),
     Group 1 (alts [Lit ''contract'', Lit ''interface'', Lit ''library'']),
     Plus (Chr isSpace), Group 2 (Plus (Chr isWord)),
     Opt (seqs [Plus (Chr isSpace), Lit ''is'', Plus (Chr isSpace),
                Group 3 (Plus (Chr (\<lambda>c. isWord c \<or> isSpace c \<or> c = CHR '','')))]),
     Star (Chr isSpace), Lit ''{'']"

text \<open>\<open>/(?:^|\n)\s*((?:mapping|address|uint\d*|int\d*|bool|bytes\d*|string|[\w.]+)(?:\[\])?)\s+(?:public\s+|private\s+|internal\s+|constant\s+|immutable\s+)*(\w+)\s*[;=]/gm\<close>\<close>

definition varRegex :: regex where
  "varRegex = seqs [Alt Bol (Lit [CHR 0x0A]), Star (Chr isSpace),
     Group 1 (Seq (alts [Lit ''mapping'', Lit ''address'',
                         Seq (Lit ''uint'') (Star (Chr isDigit)),
                         Seq (Lit ''int'') (Star (Chr isDigit)),
                         Lit ''bool'',
                         Seq (Lit ''bytes'') (Star (Chr isDigit)),
                         Lit ''string'',
                         Plus (Chr (\<lambda>c. isWord c \<or> c = CHR ''.''))])
                   (Opt (Lit ''[]''))),
     Plus (Chr isSpace),
     Star (alts [Seq (Lit ''public'') (Plus (Chr isSpace)),
                 Seq (Lit ''private'') (Plus (Chr isSpace)),
                 Seq (Lit ''internal'') (Plus (Chr isSpace)),
                 Seq (Lit ''constant'') (Plus (Chr isSpace)),
                 Seq (Lit ''immutable'') (Plus (Chr isSpace))]),
     Group 2 (Plus (Chr isWord)), Star (Chr isSpace),
     Chr (\<lambda>c. c = CHR '';'' \<or> c = CHR ''='')]"

text \<open>
  \<open>new RegExp(`${v[1]}[^;]*\\b(public|private|internal)\\b`)\<close>: the type name is read as
  a pattern. A type name that \<open>varRegex\<close> captured is made of word characters and dots,
  with \<open>[]\<close> at its end or not: a word character stands for itself, a dot for any character
  but a line terminator, and \<open>[]\<close> is the empty class, which no character matches.
\<close>

fun patternOf :: "string \<Rightarrow> regex" where
  "patternOf [] = Lit []"
| "patternOf (c # cs) =
     (if c = CHR ''.'' then Seq (Chr (\<lambda>x. \<not> isLineTerminator x)) (patternOf cs)
      else if c = CHR ''['' \<and> cs \<noteq> [] \<and> hd cs = CHR '']''
        then Seq (Chr (\<lambda>x. False)) (patternOf (tl cs))
      else Seq (Lit [c]) (patternOf cs))"

definition varVisibilityRegex :: "string \<Rightarrow> regex" where
  "varVisibilityRegex t = seqs [patternOf t, Star (Chr (\<lambda>c. c \<noteq> CHR '';'')), WordB,
     Group 1 (alts [Lit ''public'', Lit ''private'', Lit ''internal'']), WordB]"

text \<open>\<open>/function\s+(\w+)\s*\(([^)]*)\)\s*(?:public|private|internal|external)?[^{]*/gm\<close>\<close>

definition fnRegex :: regex where
  "fnRegex = seqs [Lit ''function'', Plus (Chr isSpace), Group 1 (Plus (Chr isWord)),
     Star (Chr isSpace), Lit ''('', Group 2 (Star (Chr (\<lambda>c. c \<noteq> CHR '')''))), Lit '')'',
     Star (Chr isSpace),
     Opt (alts [Lit ''public'', Lit ''private'', Lit ''internal'', Lit ''external'']),
     Star (Chr (\<lambda>c. c \<noteq> CHR ''{''))]"

text \<open>\<open>/\b(public|private|internal|external)\b/\<close> and \<open>/\b(pure|view|payable)\b/\<close>\<close>

definition visibilityRegex :: regex where
  "visibilityRegex = seqs [WordB,
     Group 1 (alts [Lit ''public'', Lit ''private'', Lit ''internal'', Lit ''external'']), WordB]"

definition mutabilityRegex :: regex where
  "mutabilityRegex = seqs [WordB, Group 1 (alts [Lit ''pure'', Lit ''view'', Lit ''payable'']), WordB]"

text \<open>\<open>/event\s+(\w+)\s*\(([^)]*)\)/gm\<close>\<close>

definition eventRegex :: regex where
  "eventRegex = seqs [Lit ''event'', Plus (Chr isSpace), Group 1 (Plus (Chr isWord)),
     Star (Chr isSpace), Lit ''('', Group 2 (Star (Chr (\<lambda>c. c \<noteq> CHR '')''))), Lit '')'']"

text \<open>\<open>/constructor\s*\(([^)]*)\)/\<close>\<close>

definition ctorRegex :: regex where
  "ctorRegex = seqs [Lit ''constructor'', Star (Chr isSpace), Lit ''('',
     Group 1 (Star (Chr (\<lambda>c. c \<noteq> CHR '')''))), Lit '')'']"

section \<open>regexFallbackParser\<close>

text \<open>
  The parameter list of a function, of the constructor and of an event is read by the same
  chain, which the source writes out three times:
  \<open>s.split(",").map((p) => p.trim()).filter(Boolean)\<close>, then for every token
  \<open>parts = p.split(/\s+/)\<close>, \<open>typeName: parts[0] || "unknown"\<close> and
  \<open>name: parts[parts.length - 1] || ""\<close>.
\<close>

definition paramTokens :: "string \<Rightarrow> string list" where
  "paramTokens s = filter (\<lambda>p. p \<noteq> []) (map trim (splitOn (CHR '','') s))"

definition paramOf :: "string \<Rightarrow> Param" where
  "paramOf p =
     (let parts = splitWs p
      in \<lparr> p_name = orElse (if parts = [] then [] else last parts) [],
           p_typeName = orElse (case parts of [] \<Rightarrow> [] | x # xs \<Rightarrow> x) ''unknown'' \<rparr>)"

definition eventParamOf :: "string \<Rightarrow> EventParam" where
  "eventParamOf p =
     (let parts = splitWs p
      in \<lparr> ep_name = orElse (if parts = [] then [] else last parts) [],
           ep_typeName = orElse (case parts of [] \<Rightarrow> [] | x # xs \<Rightarrow> x) ''unknown'',
           indexed = includesStr p ''indexed'' \<rparr>)"

definition parseParams :: "string \<Rightarrow> Param list" where
  "parseParams s = map paramOf (paramTokens s)"

text \<open>The loop that looks for the end of a body: \<open>i\<close> walks over \<open>source\<close> from the
  character after the opening brace, \<open>depth\<close> starts at 1; the result is the value of \<open>i\<close>
  when the loop ends.\<close>

function scanBody :: "string \<Rightarrow> nat \<Rightarrow> nat \<Rightarrow> nat" where
  "scanBody source i depth =
     (if i < length source \<and> 0 < depth then
        (if source ! i = CHR ''{'' then scanBody source (i + 1) (depth + 1)
         else if source ! i = CHR ''}'' then scanBody source (i + 1) (depth - 1)
         else scanBody source (i + 1) depth)
      else i)"
  by pat_completeness auto
termination
  by (relation "measure (\<lambda>(source, i, depth). length source - i)") auto

declare scanBody.simps [simp del]

definition bodyOf :: "string \<Rightarrow> rmatch \<Rightarrow> string" where
  "bodyOf source m =
     (let startIdx = index m + length (m0 m);
          i = scanBody source startIdx 1
      in slice source (int startIdx) (int i - 1))"

definition stateVariableOf :: "string \<Rightarrow> rmatch \<Rightarrow> StateVariable" where
  "stateVariableOf body v =
     \<lparr> sv_name = grp v 2,
       sv_typeName = grp v 1,
       sv_visibility =
         orElse (case jsMatch body (varVisibilityRegex (grp v 1)) of
                   None \<Rightarrow> [] | Some m \<Rightarrow> grp m 1) ''internal'',
       sv_constant = (includesStr body (grp v 1 @ '' constant'')
                      \<or> includesStr body (''constant '' @ grp v 1)),
       sv_immutable = (includesStr body (grp v 1 @ '' immutable'')
                       \<or> includesStr body (''immutable '' @ grp v 1)) \<rparr>"

definition extractStateVariables :: "string \<Rightarrow> StateVariable list" where
  "extractStateVariables body = map (stateVariableOf body) (matchAll varRegex body)"

definition functionOf :: "rmatch \<Rightarrow> FunctionDef" where
  "functionOf f =
     (let visibility = orElse (case jsMatch (m0 f) visibilityRegex of
                                 None \<Rightarrow> [] | Some m \<Rightarrow> grp m 1) ''public'';
          mutability = orElse (case jsMatch (m0 f) mutabilityRegex of
                                 None \<Rightarrow> [] | Some m \<Rightarrow> grp m 1) ''nonpayable'';
          params = parseParams (grp f 2)
      in \<lparr> fn_name = grp f 1,
           fn_visibility = visibility,
           stateMutability = mutability,
           parameters = params,
           returnParameters = [],
           isConstructor = False,
           isModifier = False \<rparr>)"

definition constructorOf :: "rmatch \<Rightarrow> FunctionDef" where
  "constructorOf ctorMatch =
     \<lparr> fn_name = ''constructor'',
       fn_visibility = ''public'',
       stateMutability = ''nonpayable'',
       parameters = parseParams (grp ctorMatch 1),
       returnParameters = [],
       isConstructor = True,
       isModifier = False \<rparr>"

text \<open>The functions of a body: the matches of \<open>fnRegex\<close> in source order, and the
  constructor record put in front of them (\<open>functions.unshift\<close>) when \<open>ctorRegex\<close> matches.\<close>

definition extractFunctions :: "string \<Rightarrow> FunctionDef list" where
  "extractFunctions body =
     (let fns = map functionOf (matchAll fnRegex body)
      in case jsMatch body ctorRegex of
           None \<Rightarrow> fns
         | Some ctorMatch \<Rightarrow> constructorOf ctorMatch # fns)"

definition eventOf :: "rmatch \<Rightarrow> EventDef" where
  "eventOf e = \<lparr> ev_name = grp e 1, ev_parameters = map eventParamOf (paramTokens (grp e 2)) \<rparr>"

definition extractEvents :: "string \<Rightarrow> EventDef list" where
  "extractEvents body = map eventOf (matchAll eventRegex body)"

text \<open>One turn of the loop over \<open>contractMatches\<close>.\<close>

definition contractOf :: "string \<Rightarrow> rmatch \<Rightarrow> ContractDef" where
  "contractOf source m =
     (let bases = (case groupAt m 3 of
                     None \<Rightarrow> []
                   | Some b \<Rightarrow> if b = [] then []
                              else filter (\<lambda>s. s \<noteq> []) (map trim (splitOn (CHR '','') b)));
          body = bodyOf source m
      in \<lparr> c_name = grp m 2,
           kind = grp m 1,
           baseContracts = bases,
           stateVariables = extractStateVariables body,
           functions' = extractFunctions body,
           events = extractEvents body \<rparr>)"

definition regexFallbackParser :: "string \<Rightarrow> ParsedContract" where
  "regexFallbackParser source =
     (let errs = [];
          pragmaVersion = (case jsMatch source pragmaRegex of
                             None \<Rightarrow> ''unknown'' | Some m \<Rightarrow> trim (grp m 1));
          imps = map (\<lambda>m. grp m 1) (matchAll importRegex source);
          contractMatches = matchAll contractRegex source;
          cs = map (contractOf source) contractMatches
      in buildResult cs pragmaVersion imps source errs)"

section \<open>parseSolidity\<close>

text \<open>
  \<open>parseSolidity\<close> reads \<open>window.__solidityParser\<close>, a parser that the page may have
  installed, and walks the syntax tree that it returns. The tree is typed \<open>any\<close> in the
  source; the datatypes below hold the node types and the fields that the walk reads. A
  field that the source reads with \<open>|| d\<close> is a string here, empty when the field is
  absent.
\<close>

datatype typeNode =
    ElementaryTypeName string
  | UserDefinedTypeName string
  | ArrayTypeName "typeNode option"
  | Mapping "typeNode option" "typeNode option"
  | OtherTypeName string

fun getTypeName :: "typeNode option \<Rightarrow> string" where
  "getTypeName None = ''unknown''"
| "getTypeName (Some (ElementaryTypeName n)) = n"
| "getTypeName (Some (UserDefinedTypeName np)) = np"
| "getTypeName (Some (ArrayTypeName b)) = getTypeName b @ ''[]''"
| "getTypeName (Some (Mapping k v)) =
     ''mapping('' @ getTypeName k @ '' => '' @ getTypeName v @ '')''"
| "getTypeName (Some (OtherTypeName n)) = orElse n ''unknown''"

record astParam =
  ap_name :: string
  ap_typeName :: "typeNode option"
  isIndexed :: bool

record astVariable =
  av_name :: string
  av_typeName :: "typeNode option"
  av_visibility :: string
  isDeclaredConst :: bool
  isImmutable :: bool

datatype subNode =
    StateVariableDeclaration "astVariable list"
  | FunctionDefinition string bool string string "astParam list" "astParam list"
  | EventDefinition string "astParam list"
  | OtherSubNode

datatype astNode =
    PragmaDirective string
  | ImportDirective string
  | ContractDefinition string string "string list" "subNode list"
  | OtherNode

definition getParams :: "astParam list \<Rightarrow> Param list" where
  "getParams params =
     map (\<lambda>p. \<lparr> p_name = orElse (ap_name p) [], p_typeName = getTypeName (ap_typeName p) \<rparr>) params"

fun astStateVariables :: "subNode \<Rightarrow> StateVariable list" where
  "astStateVariables (StateVariableDeclaration vs) =
     map (\<lambda>v. \<lparr> sv_name = av_name v,
                 sv_typeName = getTypeName (av_typeName v),
                 sv_visibility = orElse (av_visibility v) ''internal'',
                 sv_constant = isDeclaredConst v,
                 sv_immutable = isImmutable v \<rparr>) vs"
| "astStateVariables n = []"

fun astFunctions :: "subNode \<Rightarrow> FunctionDef list" where
  "astFunctions (FunctionDefinition name isCtor vis mut ps rs) =
     [\<lparr> fn_name = orElse name (if isCtor then ''constructor'' else ''fallback''),
        fn_visibility = orElse vis ''public'',
        stateMutability = orElse mut ''nonpayable'',
        parameters = getParams ps,
        returnParameters = getParams rs,
        isConstructor = isCtor,
        isModifier = False \<rparr>]"
| "astFunctions n = []"

fun astEvents :: "subNode \<Rightarrow> EventDef list" where
  "astEvents (EventDefinition name ps) =
     [\<lparr> ev_name = name,
        ev_parameters = map (\<lambda>p. \<lparr> ep_name = orElse (ap_name p) [],
                                    ep_typeName = getTypeName (ap_typeName p),
                                    indexed = isIndexed p \<rparr>) ps \<rparr>]"
| "astEvents n = []"

fun astContracts :: "astNode \<Rightarrow> ContractDef list" where
  "astContracts (ContractDefinition name k bases subNodes) =
     [\<lparr> c_name = name,
        kind = orElse k ''contract'',
        baseContracts = bases,
        stateVariables = concat (map astStateVariables subNodes),
        functions' = concat (map astFunctions subNodes),
        events = concat (map astEvents subNodes) \<rparr>]"
| "astContracts n = []"

fun astPragma :: "astNode list \<Rightarrow> string" where
  "astPragma [] = ''unknown''"
| "astPragma (PragmaDirective v # ns) = orElse v ''unknown''"
| "astPragma (n # ns) = astPragma ns"

fun astImports :: "astNode \<Rightarrow> string list" where
  "astImports (ImportDirective path) = [path]"
| "astImports n = []"

text \<open>
  The first argument is the value of \<open>window.__solidityParser || null\<close>: \<open>None\<close> when no
  parser is installed (or \<open>window\<close> does not exist: the \<open>catch\<close> ignores the error), else
  the \<open>parse\<close> function of the parser, which returns the children of the tree or throws
  (\<open>Inl\<close> the message). The \<open>catch\<close> of the source adds its message to the local \<open>errors\<close>
  and then returns \<open>regexFallbackParser(source)\<close>, which has an \<open>errors\<close> of its own.
\<close>

definition parseSolidity ::
  "(string \<Rightarrow> string + astNode list) option \<Rightarrow> string \<Rightarrow> ParsedContract" where
  "parseSolidity parser source =
     (case parser of
        None \<Rightarrow> regexFallbackParser source
      | Some parse \<Rightarrow>
          (case parse source of
             Inl message \<Rightarrow>
               (let errs = [] @ [''AST parse error: '' @ message]
                in regexFallbackParser source)
           | Inr children \<Rightarrow>
               buildResult (concat (map astContracts children)) (astPragma children)
                 (concat (map astImports children)) source []))"

section \<open>The consumers: applyMappingRules and estimateCosts\<close>

text \<open>
  A rule of the mapping-rule engine. The engine decides which rules it emits from
  \<open>category\<close> and \<open>evmConcept\<close> alone; the other fields of \<open>MappingRule\<close> are texts that
  it copies or builds and never reads, and they are left out. \<open>rule_id n\<close> stands for the
  id \<open>rule-n\<close>. A rule built from \<open>STATIC_RULES.find(...)\<close> has the category of the rule
  found, \<open>None\<close> when there is none.
\<close>

datatype category = State | Token | Access | Event | Pattern | Storage

record StaticRule =
  sr_category :: category
  sr_evmConcept :: string

record MappingRule =
  rule_id :: nat
  rule_category :: "category option"
  evmConcept :: string

definition STATIC_RULES :: "StaticRule list" where
  "STATIC_RULES =
     [\<lparr> sr_category = State, sr_evmConcept = ''contract storage'' \<rparr>,
      \<lparr> sr_category = Storage, sr_evmConcept = ''mapping(K => V)'' \<rparr>,
      \<lparr> sr_category = Access, sr_evmConcept = ''address owner (Ownable)'' \<rparr>,
      \<lparr> sr_category = Access, sr_evmConcept = ''AccessControl (roles)'' \<rparr>,
      \<lparr> sr_category = Token, sr_evmConcept = ''ERC-20 token'' \<rparr>,
      \<lparr> sr_category = Token, sr_evmConcept = ''ERC-721 NFT'' \<rparr>,
      \<lparr> sr_category = Event, sr_evmConcept = ''Solidity event / emit'' \<rparr>,
      \<lparr> sr_category = Pattern, sr_evmConcept = ''constructor()'' \<rparr>,
      \<lparr> sr_category = Pattern, sr_evmConcept = ''require(condition, '' @ [CHR 0x22] @ ''msg'' @ [CHR 0x22] @ '')'' \<rparr>,
      \<lparr> sr_category = Pattern, sr_evmConcept = ''block.timestamp'' \<rparr>,
      \<lparr> sr_category = Pattern, sr_evmConcept = ''ReentrancyGuard / nonReentrant'' \<rparr>,
      \<lparr> sr_category = Pattern, sr_evmConcept = ''payable / msg.value'' \<rparr>]"

text \<open>\<open>rules.push({ id: nextId(), ...base, evmConcept: c })\<close>: every push takes the next
  id, which is the number of rules pushed so far plus one.\<close>

definition pushRule :: "MappingRule list \<Rightarrow> StaticRule option \<Rightarrow> string option \<Rightarrow> MappingRule list" where
  "pushRule rules base concept =
     rules @ [\<lparr> rule_id = length rules + 1,
               rule_category = map_option sr_category base,
               evmConcept = (case concept of
                               Some c \<Rightarrow> c
                             | None \<Rightarrow> (case base of Some b \<Rightarrow> sr_evmConcept b | None \<Rightarrow> [])) \<rparr>]"

definition findStatic :: "string \<Rightarrow> StaticRule option" where
  "findStatic concept = find (\<lambda>r. sr_evmConcept r = concept) STATIC_RULES"

text \<open>\<open>n.toString()\<close> for a length, as the template strings print it.\<close>

fun showDigits :: "nat \<Rightarrow> nat \<Rightarrow> string" where
  "showDigits 0 n = []"
| "showDigits (Suc fuel) n =
     (if n < 10 then [char_of (48 + n)]
      else showDigits fuel (n div 10) @ [char_of (48 + n mod 10)])"

definition showNat :: "nat \<Rightarrow> string" where
  "showNat n = showDigits (Suc n) n"

text \<open>The rule of one state variable (step 2 of \<open>applyMappingRules\<close>).\<close>

definition pushVariableRule :: "MappingRule list \<Rightarrow> StateVariable \<Rightarrow> MappingRule list" where
  "pushVariableRule rules v =
     (if startsWith (sv_typeName v) ''mapping'' then
        pushRule rules (findStatic ''mapping(K => V)'') (Some (''mapping: '' @ sv_name v))
      else if includesStr (toLowerCase (sv_name v)) ''owner'' \<and> sv_typeName v = ''address'' then
        pushRule rules (findStatic ''address owner (Ownable)'') None
      else
        pushRule rules (Some \<lparr> sr_category = State, sr_evmConcept = [] \<rparr>)
          (Some (sv_typeName v @ '' '' @ sv_name v)))"

definition mainContractOf :: "ParsedContract \<Rightarrow> ContractDef option" where
  "mainContractOf parsed =
     (case find (\<lambda>c. kind c = ''contract'') (contracts parsed) of
        Some c \<Rightarrow> Some c
      | None \<Rightarrow> (case contracts parsed of [] \<Rightarrow> None | c # cs \<Rightarrow> Some c))"

definition applyMappingRules :: "ParsedContract \<Rightarrow> MappingRule list" where
  "applyMappingRules parsed =
     (let rules1 =
            (case mainContractOf parsed of
               None \<Rightarrow> []
             | Some mainContract \<Rightarrow>
                 (let r1 = pushRule [] (findStatic ''contract storage'')
                             (Some (''contract '' @ c_name mainContract @ '' storage''));
                      r2 = foldl pushVariableRule r1 (stateVariables mainContract);
                      publicFns = filter (\<lambda>f. \<not> isConstructor f
                                     \<and> (fn_visibility f = ''public'' \<or> fn_visibility f = ''external''))
                                   (functions' mainContract);
                      r3 = (if 0 < length publicFns then
                              pushRule r2 (findStatic ''constructor()'')
                                (Some (showNat (length publicFns) @ '' public/external functions''))
                            else r2);
                      r4 = (if 0 < length (events mainContract) then
                              pushRule r3 (find (\<lambda>r. sr_category r = Event) STATIC_RULES)
                                (Some (showNat (length (events mainContract)) @ '' events''))
                            else r3)
                  in r4));
          rules2 = (if isERC20 parsed then pushRule rules1 (findStatic ''ERC-20 token'') None
                    else rules1);
          rules3 = (if isERC721 parsed then pushRule rules2 (findStatic ''ERC-721 NFT'') None
                    else rules2);
          rules4 = (if hasOwnable parsed
                       \<and> \<not> list_ex (\<lambda>r. includesStr (evmConcept r) ''owner'') rules3
                    then pushRule rules3 (findStatic ''address owner (Ownable)'') None
                    else rules3);
          rules5 = (if hasAccessControl parsed
                    then pushRule rules4 (findStatic ''AccessControl (roles)'') None
                    else rules4);
          patterns = filter (\<lambda>r. sr_category r = Pattern
                               \<and> \<not> list_ex (\<lambda>x. evmConcept x = sr_evmConcept r) rules5)
                       STATIC_RULES
      in foldl (\<lambda>rules r. pushRule rules (Some r) None) rules5 patterns)"

text \<open>\<open>mappingCount\<close> of \<open>estimateCosts\<close>: the state variables of all contracts whose type
  name starts with \<open>mapping\<close>; \<open>pdaCost\<close> is a multiple of it.\<close>

definition mappingCount :: "ParsedContract \<Rightarrow> nat" where
  "mappingCount parsed =
     length (filter (\<lambda>v. startsWith (sv_typeName v) ''mapping'')
                    (concat (map stateVariables (contracts parsed))))"

section \<open>Auxiliary definitions for the proofs\<close>

text \<open>The loop of \<open>scanBody\<close> as a walk over the text that is left: the number of
  characters that the loop steps over before it ends. \<open>scanBody_scanList\<close> below proves
  that it is the same loop.\<close>

fun scanList :: "string \<Rightarrow> nat \<Rightarrow> nat" where
  "scanList [] depth = 0"
| "scanList (c # cs) depth =
     (if 0 < depth then
        Suc (scanList cs (if c = CHR ''{'' then depth + 1
                          else if c = CHR ''}'' then depth - 1 else depth))
      else 0)"

text \<open>The brace depth that a text adds: its opening braces minus its closing braces,
  every brace character counted wherever it stands.\<close>

definition braceDepth :: "string \<Rightarrow> int" where
  "braceDepth s = int (length (filter (\<lambda>c. c = CHR ''{'') s))
                  - int (length (filter (\<lambda>c. c = CHR ''}'') s))"

text \<open>The totals that \<open>buildResult\<close> compares with its thresholds.\<close>

definition totalFunctions :: "ContractDef list \<Rightarrow> nat" where
  "totalFunctions cs = sum_list (map (\<lambda>c. length (functions' c)) cs)"

definition totalStateVariables :: "ContractDef list \<Rightarrow> nat" where
  "totalStateVariables cs = sum_list (map (\<lambda>c. length (stateVariables c)) cs)"

text \<open>The first and the last word of a token: the characters before its first white
  space and those after its last.\<close>

definition firstWord :: "string \<Rightarrow> string" where
  "firstWord t = takeWhile (\<lambda>c. \<not> isSpace c) t"

definition lastWord :: "string \<Rightarrow> string" where
  "lastWord t = rev (takeWhile (\<lambda>c. \<not> isSpace c) (rev t))"

text \<open>The rules of the engine that stand for a mapping: those of category \<open>storage\<close>,
  which only the rule \<open>mapping(K => V)\<close> of the catalogue has.\<close>

definition isPdaRule :: "MappingRule \<Rightarrow> bool" where
  "isPdaRule r = (rule_category r = Some Storage)"

definition isMappingVariable :: "StateVariable \<Rightarrow> bool" where
  "isMappingVariable v = startsWith (sv_typeName v) ''mapping''"

text \<open>The function names of all contracts, in order.\<close>

definition functionNames :: "ContractDef list \<Rightarrow> string list" where
  "functionNames cs = concat (map (\<lambda>c. map fn_name (functions' c)) cs)"

text \<open>
  The matching brace as claim C1 reads it, for the comparison with \<open>scanBody\<close>; this walk
  is not in the source. It counts braces as \<open>scanList\<close> does, but not those inside a string
  literal (with its backslash escapes), a line comment or a block comment. \<open>spec_bodyOf\<close>
  is the text before the closing brace that it finds.
\<close>

datatype lexMode = InCode | InString char | InLineComment | InBlockComment

fun spec_awareScan :: "lexMode \<Rightarrow> string \<Rightarrow> nat \<Rightarrow> nat" where
  "spec_awareScan mode [] depth = 0"
| "spec_awareScan InCode (c # cs) depth =
     (if depth = 0 then 0
      else if c = CHR ''{'' then Suc (spec_awareScan InCode cs (depth + 1))
      else if c = CHR ''}'' then Suc (spec_awareScan InCode cs (depth - 1))
      else if c = CHR 0x22 \<or> c = CHR 0x27 then Suc (spec_awareScan (InString c) cs depth)
      else if c = CHR ''/'' \<and> cs \<noteq> [] \<and> hd cs = CHR ''/''
        then Suc (Suc (spec_awareScan InLineComment (tl cs) depth))
      else if c = CHR ''/'' \<and> cs \<noteq> [] \<and> hd cs = CHR ''*''
        then Suc (Suc (spec_awareScan InBlockComment (tl cs) depth))
      else Suc (spec_awareScan InCode cs depth))"
| "spec_awareScan (InString q) (c # cs) depth =
     (if c = CHR 0x5C \<and> cs \<noteq> [] then Suc (Suc (spec_awareScan (InString q) (tl cs) depth))
      else if c = q then Suc (spec_awareScan InCode cs depth)
      else Suc (spec_awareScan (InString q) cs depth))"
| "spec_awareScan InLineComment (c # cs) depth =
     (if isLineTerminator c then Suc (spec_awareScan InCode cs depth)
      else Suc (spec_awareScan InLineComment cs depth))"
| "spec_awareScan InBlockComment (c # cs) depth =
     (if c = CHR ''*'' \<and> cs \<noteq> [] \<and> hd cs = CHR ''/''
        then Suc (Suc (spec_awareScan InCode (tl cs) depth))
      else Suc (spec_awareScan InBlockComment cs depth))"

definition spec_bodyOf :: "string \<Rightarrow> rmatch \<Rightarrow> string" where
  "spec_bodyOf source m =
     (let r = drop (index m + length (m0 m)) source
      in take (spec_awareScan InCode r 1 - 1) r)"

text \<open>\<open>setsGroup r i\<close>: every match of \<open>r\<close> runs through the group \<open>i\<close>, so that \<open>m[i]\<close>
  is a string and not \<open>undefined\<close>.\<close>

fun setsGroup :: "regex \<Rightarrow> nat \<Rightarrow> bool" where
  "setsGroup (Group j x) i = (i = j \<or> setsGroup x i)"
| "setsGroup (Seq x y) i = ((setsGroup x i \<and> i \<notin> set (groupsOf y)) \<or> setsGroup y i)"
| "setsGroup (Alt x y) i = (setsGroup x i \<and> setsGroup y i)"
| "setsGroup r i = False"

section \<open>The scenarios of the specification\<close>

text \<open>Scenario 1, the minimal ERC-20 source.\<close>

definition scenario1 :: string where
  "scenario1 = ''contract T { function transfer(address,uint256) public returns(bool){} function approve(address,uint256) public returns(bool){} function transferFrom(address,address,uint256) public returns(bool){} }''"

text \<open>Scenario 5: a contract with exactly 16 trivial functions and no state variable.\<close>

definition scenario5 :: string where
  "scenario5 = ''contract C { function fa() public {} function fb() public {} function fc() public {} function fd() public {} function fe() public {} function ff() public {} function fg() public {} function fh() public {} function fi() public {} function fj() public {} function fk() public {} function fl() public {} function fm() public {} function fn() public {} function fo() public {} function fp() public {} }''"

text \<open>Scenario 4: a body whose constructor stands after a function.\<close>

definition scenario4body :: string where
  "scenario4body = '' function foo() public {} constructor(address a) {} ''"

text \<open>A source whose contract body has two texts of the shape \<open>constructor(...)\<close>.\<close>

definition twoConstructors :: string where
  "twoConstructors = ''contract A { constructor(address a) {} function f() public {} constructor(uint b) {} }''"

text \<open>Two sources with a closing brace that is not code: in a string literal and in a
  comment.\<close>

definition braceInString :: string where
  "braceInString = ''contract C { string s = '' @ [CHR 0x22] @ ''}'' @ [CHR 0x22] @ ''; uint x; }''"

definition braceInComment :: string where
  "braceInComment = ''contract C { function f() public { /* } */ } uint x; }''"

text \<open>Scenario 6: the opening brace of the last declaration is never closed.\<close>

definition unterminated :: string where
  "unterminated = ''contract A { uint x; }'' @ [CHR 0x0A] @ ''contract B { function f() public {''"

section \<open>The body scan\<close>

lemma scanBody_scanList:
  "i \<le> length source \<Longrightarrow> scanBody source i depth = i + scanList (drop i source) depth"
proof (induction source i depth rule: scanBody.induct)
  case (1 source i depth)
  show ?case
  proof (cases "i < length source \<and> 0 < depth")
    case True
    then have d: "drop i source = source ! i # drop (Suc i) source"
      by (simp add: Cons_nth_drop_Suc)
    from True 1 show ?thesis
      by (subst scanBody.simps) (simp add: d)
  next
    case False
    with 1(4) show ?thesis
      by (subst scanBody.simps) (cases "drop i source"; auto)
  qed
qed

lemma scanList_le: "scanList s d \<le> length s"
  by (induction s arbitrary: d) auto

lemma bodyOf_code [code]:
  "bodyOf source m =
     (let startIdx = index m + length (m0 m)
      in if startIdx = 0 \<or> length source < startIdx
         then slice source (int startIdx) (int (scanBody source startIdx 1) - 1)
         else take (scanList (drop startIdx source) 1 - 1) (drop startIdx source))"
proof (cases "index m + length (m0 m) = 0 \<or> length source < index m + length (m0 m)")
  case True
  then show ?thesis
    unfolding bodyOf_def Let_def by (simp only: if_True)
next
  case False
  define k where "k = index m + length (m0 m)"
  define j where "j = scanList (drop k source) 1"
  from False have k: "0 < k" "k \<le> length source"
    by (simp_all add: k_def)
  have sb: "scanBody source k 1 = k + j"
    using k by (simp only: scanBody_scanList j_def)
  have j: "j \<le> length source - k"
    using scanList_le [of "drop k source" 1] by (simp add: j_def)
  have n: "nat (int j - 1) = j - 1"
    by linarith
  have "slice source (int k) (int (k + j) - 1) = take (j - 1) (drop k source)"
    using k j n by (auto simp: slice_def Let_def min_def nat_diff_distrib)
  with False show ?thesis
    unfolding bodyOf_def Let_def k_def [symmetric] sb j_def [symmetric] by simp
qed

section \<open>The assembled result\<close>

lemma foldl_add_length:
  "foldl (\<lambda>s c. s + length (f c)) n cs = n + sum_list (map (\<lambda>c. length (f c)) cs)"
  by (induction cs arbitrary: n) auto

lemma regexFallbackParser_buildResult:
  "regexFallbackParser source =
     buildResult (map (contractOf source) (matchAll contractRegex source))
       (case jsMatch source pragmaRegex of None \<Rightarrow> ''unknown'' | Some m \<Rightarrow> trim (grp m 1))
       (map (\<lambda>m. grp m 1) (matchAll importRegex source)) source []"
  by (simp add: regexFallbackParser_def)

lemma buildResult_contracts: "contracts (buildResult cs pragma imps source errs) = cs"
  by (simp add: buildResult_def Let_def)

lemma buildResult_complexity:
  "complexity (buildResult cs pragma imps source errs) =
     (if 15 < totalFunctions cs \<or> 10 < totalStateVariables cs then High
      else if 6 < totalFunctions cs then Medium else Low)"
  by (simp add: buildResult_def Let_def foldl_add_length totalFunctions_def
      totalStateVariables_def)

section \<open>Complexity\<close>

lemma scenario5_counts:
  "map (\<lambda>c. (length (functions' c), length (stateVariables c)))
       (contracts (regexFallbackParser scenario5)) = [(16, 0)]"
  by code_simp

text \<open>
  Claim C5. The complexity of a result is \<open>high\<close> exactly when the functions of all
  contracts together are more than 15 or the state variables of all contracts together
  are more than 10; else it is \<open>medium\<close> exactly when the functions are more than 6;
  else it is \<open>low\<close>. A single contract with 16 functions and no state variable is
  \<open>high\<close>. The witness is the analysis of the source of scenario 5.
\<close>

theorem complexity_classification:
  "(complexity (buildResult cs pragma imps source errs) = High
      \<longleftrightarrow> 15 < totalFunctions cs \<or> 10 < totalStateVariables cs)
   \<and> (complexity (buildResult cs pragma imps source errs) = Medium
      \<longleftrightarrow> \<not> (15 < totalFunctions cs \<or> 10 < totalStateVariables cs) \<and> 6 < totalFunctions cs)
   \<and> (complexity (buildResult cs pragma imps source errs) = Low
      \<longleftrightarrow> \<not> (15 < totalFunctions cs \<or> 10 < totalStateVariables cs) \<and> \<not> 6 < totalFunctions cs)
   \<and> (length (functions' c) = 16 \<and> length (stateVariables c) = 0
      \<longrightarrow> complexity (buildResult [c] pragma imps source errs) = High)"
  by (simp add: buildResult_complexity totalFunctions_def totalStateVariables_def)

theorem complexity_classification_witness:
  "length (functions' (hd (contracts (regexFallbackParser scenario5)))) = 16
   \<and> length (stateVariables (hd (contracts (regexFallbackParser scenario5)))) = 0
   \<and> length (contracts (regexFallbackParser scenario5)) = 1
   \<and> complexity (regexFallbackParser scenario5) = High"
proof -
  let ?r = "regexFallbackParser scenario5"
  obtain c where c: "contracts ?r = [c]"
    using scenario5_counts by auto
  with scenario5_counts have n: "length (functions' c) = 16" "length (stateVariables c) = 0"
    by simp_all
  have r: "?r = buildResult [c]
       (case jsMatch scenario5 pragmaRegex of None \<Rightarrow> ''unknown'' | Some m \<Rightarrow> trim (grp m 1))
       (map (\<lambda>m. grp m 1) (matchAll importRegex scenario5)) scenario5 []"
    using c by (simp add: regexFallbackParser_buildResult buildResult_contracts)
  have "complexity ?r = High"
    using complexity_classification [of "[c]" _ _ scenario5 "[]" c] n by (subst r) blast
  with c n show ?thesis by simp
qed

section \<open>The empty input\<close>

text \<open>
  Claim C9. For the empty source the analysis returns the result with no contract, the
  pragma version \<open>unknown\<close>, no import and the complexity \<open>low\<close>; the model has no
  error value because no statement on this path can throw.
\<close>

theorem empty_input_analysis:
  "parseSolidity None [] =
     \<lparr> contracts = [], pragmaVersion = ''unknown'', imports' = [], isERC20 = False,
       isERC721 = False, hasOwnable = False, hasAccessControl = False, hasMappings = False,
       hasEvents = False, complexity = Low, lineCount = 1, errors = [] \<rparr>
   \<and> regexFallbackParser [] = parseSolidity None []"
  by code_simp

section \<open>Token standards\<close>

lemma allFns_functionNames:
  "concat (map (\<lambda>c. map (\<lambda>f. toLowerCase (fn_name f)) (functions' c)) cs)
     = map toLowerCase (functionNames cs)"
  by (induction cs) (simp_all add: functionNames_def)

lemma buildResult_isERC20:
  "isERC20 (buildResult cs pragma imps source errs)
     \<longleftrightarrow> {''transfer'', ''approve'', ''transferfrom''} \<subseteq> toLowerCase ` set (functionNames cs)"
  by (simp add: buildResult_def Let_def allFns_functionNames)

lemma buildResult_isERC721:
  "isERC721 (buildResult cs pragma imps source errs)
     \<longleftrightarrow> ''safetransferfrom'' \<in> toLowerCase ` set (functionNames cs)
          \<or> includesStr (toLowerCase source) ''erc721''"
  by (simp add: buildResult_def Let_def allFns_functionNames)

lemma scenario1_names:
  "map (\<lambda>c. map fn_name (functions' c)) (contracts (regexFallbackParser scenario1))
     = [[''transfer'', ''approve'', ''transferFrom'']]"
  by code_simp

lemma scenario1_no_erc721: "\<not> includesStr (toLowerCase scenario1) ''erc721''"
  by code_simp

lemma lower_names:
  "map toLowerCase [''transfer'', ''approve'', ''transferFrom''] = [''transfer'', ''approve'', ''transferfrom'']"
  by code_simp

lemma scenario1_len: "length (contracts (regexFallbackParser scenario1)) = 1"
proof -
  have "length (map (\<lambda>c. map fn_name (functions' c)) (contracts (regexFallbackParser scenario1))) = 1"
    by (simp only: scenario1_names) simp
  then show ?thesis by simp
qed

lemma scenario1_fns:
  "functionNames (contracts (regexFallbackParser scenario1)) = [''transfer'', ''approve'', ''transferFrom'']"
  unfolding functionNames_def by (simp only: scenario1_names) simp

lemma scenario1_lower:
  "toLowerCase ` set (functionNames (contracts (regexFallbackParser scenario1)))
     = {''transfer'', ''approve'', ''transferfrom''}"
proof -
  have "toLowerCase ` set [''transfer'', ''approve'', ''transferFrom'']
          = set (map toLowerCase [''transfer'', ''approve'', ''transferFrom''])"
    by (simp only: set_map)
  also have "\<dots> = set [''transfer'', ''approve'', ''transferfrom'']"
    by (simp only: lower_names)
  finally show ?thesis
    by (simp only: scenario1_fns) simp
qed

lemma regexFallbackParser_isERC20:
  "isERC20 (regexFallbackParser s)
     \<longleftrightarrow> {''transfer'', ''approve'', ''transferfrom''}
           \<subseteq> toLowerCase ` set (functionNames (contracts (regexFallbackParser s)))"
  by (simp only: regexFallbackParser_buildResult buildResult_isERC20 buildResult_contracts)

lemma regexFallbackParser_isERC721:
  "isERC721 (regexFallbackParser s)
     \<longleftrightarrow> ''safetransferfrom'' \<in> toLowerCase ` set (functionNames (contracts (regexFallbackParser s)))
          \<or> includesStr (toLowerCase s) ''erc721''"
  by (simp only: regexFallbackParser_buildResult buildResult_isERC721 buildResult_contracts)

text \<open>
  Claim C4. \<open>isERC20\<close> holds exactly when the function names of all contracts, in lower
  case, contain \<open>transfer\<close>, \<open>approve\<close> and \<open>transferfrom\<close>. The analysis of the source
  of scenario 1 has one contract, is ERC-20 and is not ERC-721.
\<close>

theorem isERC20_classification:
  "(isERC20 (buildResult cs pragma imps source errs)
      \<longleftrightarrow> {''transfer'', ''approve'', ''transferfrom''} \<subseteq> toLowerCase ` set (functionNames cs))
   \<and> length (contracts (parseSolidity None scenario1)) = 1
   \<and> isERC20 (parseSolidity None scenario1)
   \<and> \<not> isERC721 (parseSolidity None scenario1)"
proof -
  let ?r = "regexFallbackParser scenario1"
  have p: "parseSolidity None scenario1 = ?r"
    by (simp add: parseSolidity_def)
  have e20: "isERC20 ?r"
    by (simp only: regexFallbackParser_isERC20 scenario1_lower subset_refl)
  have "\<not> ''safetransferfrom'' \<in> {''transfer'', ''approve'', ''transferfrom''}"
    by simp
  then have e721: "\<not> isERC721 ?r"
    using scenario1_no_erc721
    by (simp only: regexFallbackParser_isERC721 scenario1_lower) blast
  show ?thesis
    unfolding p using e20 e721 scenario1_len buildResult_isERC20 by blast
qed

section \<open>What the matcher finds\<close>

lemma lit_append:
  "lit s (MState p n (s @ r) a c) =
     [MState (if s = [] then p else Some (last s)) (n - int (length s)) r (rev s @ a) c]"
  by (induction s arbitrary: p n a) auto

lemma ms_Seq_member:
  "st1 \<in> set (ms x st) \<Longrightarrow> st2 \<in> set (ms y st1) \<Longrightarrow> st2 \<in> set (ms (Seq x y) st)"
  by auto

lemma ms_Star_Chr_member:
  "\<forall>x \<in> set xs. P x \<Longrightarrow> int (length xs) \<le> n \<Longrightarrow>
   MState (if xs = [] then p else Some (last xs)) (n - int (length xs)) r (rev xs @ a) c
     \<in> set (ms (Star (Chr P)) (MState p n (xs @ r) a c))"
proof (induction xs arbitrary: p n a)
  case Nil
  then show ?case by (subst ms.simps) simp
next
  case (Cons x xs)
  have "MState (if xs = [] then Some x else Some (last xs)) (n - 1 - int (length xs)) r
          (rev xs @ x # a) c
        \<in> set (ms (Star (Chr P)) (MState (Some x) (n - 1) (xs @ r) (x # a) c))"
    using Cons.IH [of "n - 1" "Some x" "x # a"] Cons.prems by simp
  moreover have "n - 1 - int (length xs) = n - int (length (x # xs))"
    by simp
  ultimately show ?case
    using Cons.prems by (subst ms.simps) auto
qed

lemma ms_Group_member:
  "MState p' n' r' a' c' \<in> set (ms x (MState p n r [] c)) \<Longrightarrow>
   MState p' n' r' (a' @ a) ((i, rev a') # c') \<in> set (ms (Group i x) (MState p n r a c))"
  by (auto simp: image_iff intro!: bexI [where x = "MState p' n' r' a' c'"])

lemma searchFrom_finds:
  "(\<And>p. ms r (MState p (int (length t)) t [] []) \<noteq> []) \<Longrightarrow>
   searchFrom r p i (int (length (pre @ t))) (pre @ t) \<noteq> None"
proof (induction pre arbitrary: p i)
  case Nil
  then show ?case
    by (cases t) (auto split: list.splits)
next
  case (Cons x pre)
  have "int (length ((x # pre) @ t)) - 1 = int (length (pre @ t))"
    by simp
  then show ?case
    using Cons.IH [OF Cons.prems, of "Some x" "Suc i"]
    by (auto split: list.splits)
qed

lemma ctorRegex_matches_here:
  assumes "\<forall>c \<in> set ws. isSpace c" and "CHR '')'' \<notin> set ps"
  shows "ms ctorRegex (MState p (int (length (''constructor'' @ ws @ ''('' @ ps @ '')'' @ post)))
           (''constructor'' @ ws @ ''('' @ ps @ '')'' @ post) [] []) \<noteq> []"
proof -
  let ?t = "''constructor'' @ ws @ ''('' @ ps @ '')'' @ post"
  let ?n = "int (length ?t)"
  let ?st0 = "MState p ?n ?t [] []"
  let ?n1 = "?n - 11"
  let ?st1 = "MState (Some CHR ''r'') ?n1 (ws @ ''('' @ ps @ '')'' @ post) (rev ''constructor'') []"
  have s1: "?st1 \<in> set (ms (Lit ''constructor'') ?st0)"
    using lit_append [of "''constructor''" p ?n "ws @ ''('' @ ps @ '')'' @ post" "[]" "[]"]
    by simp
  let ?p2 = "if ws = [] then Some CHR ''r'' else Some (last ws)"
  let ?n2 = "?n1 - int (length ws)"
  let ?a2 = "rev ws @ rev ''constructor''"
  let ?st2 = "MState ?p2 ?n2 (''('' @ ps @ '')'' @ post) ?a2 []"
  have s2: "?st2 \<in> set (ms (Star (Chr isSpace)) ?st1)"
    using ms_Star_Chr_member [of ws isSpace ?n1 "Some CHR ''r''" "''('' @ ps @ '')'' @ post"
        "rev ''constructor''" "[]"] assms(1)
    by simp
  let ?n3 = "?n2 - 1"
  let ?st3 = "MState (Some CHR ''('') ?n3 (ps @ '')'' @ post) (CHR ''('' # ?a2) []"
  have s3: "?st3 \<in> set (ms (Lit ''('') ?st2)"
    using lit_append [of "''(''" ?p2 ?n2 "ps @ '')'' @ post" ?a2 "[]"] by simp
  let ?p4 = "if ps = [] then Some CHR ''('' else Some (last ps)"
  let ?n4 = "?n3 - int (length ps)"
  have "MState ?p4 ?n4 ('')'' @ post) (rev ps @ []) []
          \<in> set (ms (Star (Chr (\<lambda>c. c \<noteq> CHR '')''))) (MState (Some CHR ''('') ?n3 (ps @ '')'' @ post) [] []))"
  proof -
    have np: "\<forall>x \<in> set ps. x \<noteq> CHR '')''"
      using assms(2) by auto
    have le: "int (length ps) \<le> ?n3"
      by simp
    show ?thesis
      using ms_Star_Chr_member [OF np le, of "Some CHR ''(''" "'')'' @ post" "[]" "[]"]
      by simp
  qed
  then have s4: "MState ?p4 ?n4 ('')'' @ post) (rev ps @ CHR ''('' # ?a2) [(1, rev (rev ps))]
          \<in> set (ms (Group 1 (Star (Chr (\<lambda>c. c \<noteq> CHR '')'')))) ?st3)"
    using ms_Group_member [of ?p4 ?n4 "'')'' @ post" "rev ps" "[]" _ "Some CHR ''(''" ?n3
        "ps @ '')'' @ post" "[]" "CHR ''('' # ?a2" 1]
    by simp
  let ?st4 = "MState ?p4 ?n4 ('')'' @ post) (rev ps @ CHR ''('' # ?a2) [(1, rev (rev ps))]"
  have s5: "ms (Lit '')'') ?st4 \<noteq> []"
    using lit_append [of "'')''" ?p4 ?n4 post "rev ps @ CHR ''('' # ?a2" "[(1, rev (rev ps))]"]
    by simp
  then obtain st5 where s5': "st5 \<in> set (ms (Lit '')'') ?st4)"
    by (meson last_in_set)
  have "st5 \<in> set (ms (Seq (Group 1 (Star (Chr (\<lambda>c. c \<noteq> CHR '')'')))) (Lit '')'')) ?st3)"
    by (rule ms_Seq_member [OF s4 s5'])
  then have "st5 \<in> set (ms (Seq (Lit ''('') (Seq (Group 1 (Star (Chr (\<lambda>c. c \<noteq> CHR '')'')))) (Lit '')''))) ?st2)"
    by (rule ms_Seq_member [OF s3])
  then have "st5 \<in> set (ms (Seq (Star (Chr isSpace)) (Seq (Lit ''('') (Seq (Group 1 (Star (Chr (\<lambda>c. c \<noteq> CHR '')'')))) (Lit '')'')))) ?st1)"
    by (rule ms_Seq_member [OF s2])
  then have "st5 \<in> set (ms (Seq (Lit ''constructor'') (Seq (Star (Chr isSpace)) (Seq (Lit ''('') (Seq (Group 1 (Star (Chr (\<lambda>c. c \<noteq> CHR '')'')))) (Lit '')''))))) ?st0)"
    by (rule ms_Seq_member [OF s1])
  then have "ms (Seq (Lit ''constructor'') (Seq (Star (Chr isSpace)) (Seq (Lit ''('') (Seq (Group 1 (Star (Chr (\<lambda>c. c \<noteq> CHR '')'')))) (Lit '')''))))) ?st0 \<noteq> []"
    by (metis empty_iff empty_set)
  then show ?thesis
    unfolding ctorRegex_def by (simp only: seqs.simps) simp
qed

lemma jsMatch_ctorRegex:
  assumes "body = pre @ ''constructor'' @ ws @ ''('' @ ps @ '')'' @ post"
    and "\<forall>c \<in> set ws. isSpace c" and "CHR '')'' \<notin> set ps"
  shows "jsMatch body ctorRegex \<noteq> None"
  unfolding jsMatch_def assms(1)
  by (rule searchFrom_finds) (rule ctorRegex_matches_here [OF assms(2,3)])

lemma extractFunctions_ctor:
  "jsMatch body ctorRegex = Some cm \<Longrightarrow>
   extractFunctions body = constructorOf cm # map functionOf (matchAll fnRegex body)"
  by (simp add: extractFunctions_def)

section \<open>The constructor\<close>

lemma functionOf_flags: "\<not> isConstructor (functionOf f) \<and> \<not> isModifier (functionOf f)"
  by (simp add: functionOf_def Let_def)

lemma filter_isConstructor_fns:
  "filter isConstructor (map functionOf fs) = []"
  by (induction fs) (simp_all add: functionOf_flags)

lemma extractFunctions_constructors:
  "filter isConstructor (extractFunctions body) =
     (case jsMatch body ctorRegex of None \<Rightarrow> [] | Some cm \<Rightarrow> [constructorOf cm])"
  by (simp add: extractFunctions_def Let_def filter_isConstructor_fns constructorOf_def
      split: option.splits)

lemma extractFunctions_no_modifier:
  "f \<in> set (extractFunctions body) \<Longrightarrow> \<not> isModifier f"
  by (auto simp: extractFunctions_def Let_def functionOf_flags constructorOf_def
      split: option.splits)

lemma regexFallbackParser_contracts:
  "contracts (regexFallbackParser source) = map (contractOf source) (matchAll contractRegex source)"
  by (simp only: regexFallbackParser_buildResult buildResult_contracts)

lemma contractOf_functions: "functions' (contractOf source m) = extractFunctions (bodyOf source m)"
  by (simp add: contractOf_def Let_def)

text \<open>
  Claim C3. A body that contains a constructor declaration, the word \<open>constructor\<close>,
  white space or none, and a parameter list in parentheses, has the constructor record
  at index 0 of its functions, wherever the declaration stands in the body: the name is
  \<open>constructor\<close>, \<open>isConstructor\<close> is true and the visibility is \<open>public\<close>. The
  functions of a contract record are those of its body. The witness is the body of
  scenario 4, whose constructor stands after the function \<open>foo\<close>.
\<close>

theorem constructor_first:
  assumes "body = pre @ ''constructor'' @ ws @ ''('' @ ps @ '')'' @ post"
    and "\<forall>c \<in> set ws. isSpace c" and "CHR '')'' \<notin> set ps"
  shows "extractFunctions body \<noteq> []
     \<and> fn_name (extractFunctions body ! 0) = ''constructor''
     \<and> isConstructor (extractFunctions body ! 0)
     \<and> fn_visibility (extractFunctions body ! 0) = ''public''
     \<and> functions' (contractOf source m) = extractFunctions (bodyOf source m)"
proof -
  obtain cm where "jsMatch body ctorRegex = Some cm"
    using jsMatch_ctorRegex [OF assms] by auto
  then show ?thesis
    by (simp add: extractFunctions_ctor constructorOf_def contractOf_def Let_def)
qed

lemma scenario4_names:
  "map fn_name (extractFunctions scenario4body) = [''constructor'', ''foo'']"
  by code_simp

theorem constructor_first_witness:
  "scenario4body = '' function foo() public {} '' @ ''constructor'' @ [] @ ''('' @ ''address a'' @ '')'' @ '' {} ''
   \<and> list_all isSpace [] \<and> CHR '')'' \<notin> set ''address a''
   \<and> map fn_name (extractFunctions scenario4body) = [''constructor'', ''foo'']
   \<and> isConstructor (extractFunctions scenario4body ! 0)
   \<and> fn_visibility (extractFunctions scenario4body ! 0) = ''public''"
proof -
  have b: "scenario4body = '' function foo() public {} '' @ ''constructor'' @ [] @ ''('' @ ''address a'' @ '')'' @ '' {} ''"
    by (simp add: scenario4body_def)
  have w: "\<forall>c \<in> set []. isSpace c"
    by simp
  have p: "CHR '')'' \<notin> set ''address a''"
    by simp
  show ?thesis
    using constructor_first [OF b w p] b scenario4_names by simp
qed

text \<open>
  Claim C10. Every contract record of the regex analysis has at most one function record
  with \<open>isConstructor\<close> true and none with \<open>isModifier\<close> true: the constructor records of
  a body are the one record of the match that \<open>match\<close> returns, the leftmost, or none, and
  the records of the function matches have both flags false. The witness is a source with
  two texts \<open>constructor(...)\<close> in its body; only the first gives a record.
\<close>

theorem at_most_one_constructor:
  "(\<forall>c \<in> set (contracts (regexFallbackParser source)).
       length (filter isConstructor (functions' c)) \<le> 1
     \<and> (\<forall>f \<in> set (functions' c). \<not> isModifier f))
   \<and> filter isConstructor (extractFunctions body) =
       (case jsMatch body ctorRegex of None \<Rightarrow> [] | Some cm \<Rightarrow> [constructorOf cm])
   \<and> (\<forall>f \<in> set (map functionOf (matchAll fnRegex body)).
         \<not> isConstructor f \<and> \<not> isModifier f)"
proof -
  have "length (filter isConstructor (extractFunctions b)) \<le> 1" for b
    by (simp add: extractFunctions_constructors split: option.splits)
  then show ?thesis
    by (auto simp: regexFallbackParser_contracts contractOf_functions
        extractFunctions_constructors extractFunctions_no_modifier functionOf_flags)
qed

lemma twoConstructors_eval:
  "map (\<lambda>m. (length (matchAll ctorRegex (bodyOf twoConstructors m)),
              map (\<lambda>f. (fn_name f, map p_name (parameters f)))
                  (functions' (contractOf twoConstructors m))))
       (matchAll contractRegex twoConstructors)
   = [(2, [(''constructor'', [''a'']), (''f'', [])])]"
  by code_simp

theorem at_most_one_constructor_witness:
  "length (contracts (regexFallbackParser twoConstructors)) = 1
   \<and> map (\<lambda>m. length (matchAll ctorRegex (bodyOf twoConstructors m)))
          (matchAll contractRegex twoConstructors) = [2]
   \<and> map (\<lambda>f. (fn_name f, map p_name (parameters f)))
          (functions' (hd (contracts (regexFallbackParser twoConstructors))))
        = [(''constructor'', [''a'']), (''f'', [])]
   \<and> length (filter isConstructor (functions' (hd (contracts (regexFallbackParser twoConstructors))))) \<le> 1"
proof -
  let ?cs = "contracts (regexFallbackParser twoConstructors)"
  obtain m where m: "matchAll contractRegex twoConstructors = [m]"
    using twoConstructors_eval by auto
  then have c: "?cs = [contractOf twoConstructors m]"
    by (simp add: regexFallbackParser_contracts)
  then have "contractOf twoConstructors m \<in> set ?cs"
    by simp
  then have "length (filter isConstructor (functions' (contractOf twoConstructors m))) \<le> 1"
    using at_most_one_constructor [of twoConstructors] by blast
  then show ?thesis
    using twoConstructors_eval c m by simp
qed

section \<open>The span of a body\<close>

lemma braceDepth_Nil: "braceDepth [] = 0"
  by (simp add: braceDepth_def)

lemma braceDepth_Cons:
  "braceDepth (c # s) = (if c = CHR ''{'' then 1 else if c = CHR ''}'' then - 1 else 0) + braceDepth s"
  by (simp add: braceDepth_def)

lemma scanList_zero: "scanList s 0 = 0"
  by (cases s) simp_all

lemma scanList_balanced:
  "0 < d \<Longrightarrow> list_all (\<lambda>p. 1 \<le> int d + braceDepth p) (prefixes b) \<Longrightarrow>
   int d + braceDepth b = 1 \<Longrightarrow> scanList (b @ CHR ''}'' # t) d = Suc (length b)"
proof (induction b arbitrary: d)
  case Nil
  then show ?case by (simp add: braceDepth_Nil scanList_zero)
next
  case (Cons c b)
  let ?d' = "if c = CHR ''{'' then d + 1 else if c = CHR ''}'' then d - 1 else d"
  from Cons.prems(2) have pre: "list_all (\<lambda>p. 1 \<le> int d + braceDepth (c # p)) (prefixes b)"
    by (simp add: list_all_iff)
  from pre have one: "1 \<le> int d + braceDepth [c]"
    by (cases b) (simp_all add: list_all_iff)
  have d': "int ?d' = int d + (if c = CHR ''{'' then 1 else if c = CHR ''}'' then - 1 else 0)"
    using one Cons.prems(1) by (auto simp: braceDepth_Cons braceDepth_Nil)
  have pos: "0 < ?d'"
    using one d' by (simp add: braceDepth_Cons braceDepth_Nil split: if_splits)
  have all: "list_all (\<lambda>p. 1 \<le> int ?d' + braceDepth p) (prefixes b)"
    using pre unfolding d' by (simp add: braceDepth_Cons list_all_iff add.assoc)
  have tot: "int ?d' + braceDepth b = 1"
    using Cons.prems(3) unfolding d' by (simp add: braceDepth_Cons)
  have "scanList (b @ CHR ''}'' # t) ?d' = Suc (length b)"
    by (rule Cons.IH [OF pos all tot])
  then show ?case
    using Cons.prems(1) by simp
qed

text \<open>
  Claim C1, as amended. The scanner counts every brace character, also one inside a
  comment or a string literal: when the text after the opening brace of a declaration is
  \<open>b\<close>, a closing brace and a rest, where \<open>b\<close> has as many closing as opening braces and
  no prefix of \<open>b\<close> has more closing than opening ones, the body is \<open>b\<close>. The witness is
  a source with a closing brace in a comment, where the body ends at that brace.
\<close>

theorem body_span_naive_count:
  assumes "drop (index m + length (m0 m)) source = b @ CHR ''}'' # t"
    and "list_all (\<lambda>p. 0 \<le> braceDepth p) (prefixes b)"
    and "braceDepth b = 0"
  shows "bodyOf source m = b"
proof -
  define k where "k = index m + length (m0 m)"
  have k: "k \<le> length source"
    using assms(1) unfolding k_def by (cases "index m + length (m0 m) \<le> length source") auto
  have "scanList (b @ CHR ''}'' # t) 1 = Suc (length b)"
    using assms(2,3) by (intro scanList_balanced) (simp_all add: list_all_iff)
  then have sb: "scanBody source k 1 = k + Suc (length b)"
    using k assms(1) by (simp add: scanBody_scanList k_def)
  have "length (drop k source) = length b + Suc (length t)"
    using assms(1) by (simp add: k_def)
  then have len: "int k + int (length b) \<le> int (length source)"
    by simp
  have "int (k + Suc (length b)) - 1 = int k + int (length b)"
    by simp
  moreover have "nat (int k + int (length b) - int k) = length b"
    by simp
  ultimately have "slice source (int k) (int (k + Suc (length b)) - 1) = take (length b) (drop k source)"
    using k len by (simp add: slice_def Let_def min_def)
  then show ?thesis
    using assms(1) unfolding bodyOf_def Let_def k_def [symmetric] sb by (simp add: k_def)
qed

lemma braceInComment_rest:
  "map (\<lambda>m. drop (index m + length (m0 m)) braceInComment) (matchAll contractRegex braceInComment)
     = ['' function f() public { /* } */ '' @ CHR ''}'' # '' uint x; }'']"
  by code_simp

lemma braceInComment_prefixes:
  "list_all (\<lambda>p. 0 \<le> braceDepth p) (prefixes '' function f() public { /* } */ '')
   \<and> braceDepth '' function f() public { /* } */ '' = 0"
  by code_simp

theorem body_span_naive_count_witness:
  "map (bodyOf braceInComment) (matchAll contractRegex braceInComment)
     = ['' function f() public { /* } */ '']
   \<and> list_all (\<lambda>p. 0 \<le> braceDepth p) (prefixes '' function f() public { /* } */ '')
   \<and> braceDepth '' function f() public { /* } */ '' = 0"
proof -
  obtain m where m: "matchAll contractRegex braceInComment = [m]"
    using braceInComment_rest by auto
  then have d: "drop (index m + length (m0 m)) braceInComment
                  = '' function f() public { /* } */ '' @ CHR ''}'' # '' uint x; }''"
    using braceInComment_rest by simp
  have "bodyOf braceInComment m = '' function f() public { /* } */ ''"
    using braceInComment_prefixes by (intro body_span_naive_count [OF d]) simp_all
  then show ?thesis
    using m braceInComment_prefixes by simp
qed

text \<open>
  Claim C1 as stated fails: a closing brace in a string literal or in a comment ends the
  body that the scanner yields, while the brace that matches the opening one comes later.
\<close>

theorem body_span_counterexample:
  "map (bodyOf braceInString) (matchAll contractRegex braceInString)
     = ['' string s = '' @ [CHR 0x22]]
   \<and> map (spec_bodyOf braceInString) (matchAll contractRegex braceInString)
     = ['' string s = '' @ [CHR 0x22] @ ''}'' @ [CHR 0x22] @ ''; uint x; '']
   \<and> map (bodyOf braceInComment) (matchAll contractRegex braceInComment)
     = ['' function f() public { /* } */ '']
   \<and> map (spec_bodyOf braceInComment) (matchAll contractRegex braceInComment)
     = ['' function f() public { /* } */ } uint x; '']"
  by code_simp

section \<open>The groups of a match\<close>

text \<open>
  The analyzer calls \<open>trim\<close>, \<open>split\<close> and \<open>match\<close> on groups of its matches, which throws
  when the group is \<open>undefined\<close>. Every group that it reads without a test is set by every
  match of its expression, so \<open>grp\<close> never falls back to its default.
\<close>

lemma lit_caps: "st' \<in> set (lit s st) \<Longrightarrow> caps st' = caps st"
  by (induction s st rule: lit.induct) (auto split: if_splits)

lemma clearCaps_keeps: "i \<notin> set gs \<Longrightarrow> map_of (caps (clearCaps gs st)) i = map_of (caps st) i"
proof (cases gs)
  case Nil
  then show ?thesis by simp
next
  case (Cons g gs')
  assume i: "i \<notin> set gs"
  have "map_of (filter (\<lambda>(j, s). j \<notin> set gs) c) i = map_of c i" for c :: "(nat \<times> string) list"
    using i by (induction c) auto
  then show ?thesis
    using Cons by (cases st) simp
qed

lemma ms_keeps:
  "st' \<in> set (ms r st) \<Longrightarrow> i \<notin> set (groupsOf r) \<Longrightarrow> map_of (caps st') i = map_of (caps st) i"
proof (induction r st arbitrary: st' rule: ms.induct)
  case (1 P p n r a c)
  then show ?case by (auto split: list.splits if_splits)
next
  case (2 s st)
  then show ?case by (simp add: lit_caps)
next
  case (3 p n r a c)
  then show ?case by (auto split: option.splits if_splits)
next
  case (4 p n r a c)
  then show ?case by (auto simp: Let_def split: if_splits)
next
  case (5 x y st)
  from 5(3) obtain st1 where a: "st1 \<in> set (ms x st)" and b: "st' \<in> set (ms y st1)"
    by auto
  have "map_of (caps st1) i = map_of (caps st) i"
    using 5(1) [OF a] 5(4) by simp
  moreover have "map_of (caps st') i = map_of (caps st1) i"
    using 5(2) [OF a b] 5(4) by simp
  ultimately show ?case by simp
next
  case (6 x y st)
  then show ?case by auto
next
  case (7 x st)
  from 7(3) have "st' = st \<or> (\<exists>st1 \<in> set (ms x (clearCaps (groupsOf x) st)).
      0 \<le> left st1 \<and> left st1 < left st \<and> st' \<in> set (ms (Star x) st1))"
    by (subst (asm) ms.simps) (auto split: if_splits)
  then show ?case
  proof
    assume "st' = st"
    then show ?thesis by simp
  next
    assume "\<exists>st1 \<in> set (ms x (clearCaps (groupsOf x) st)).
      0 \<le> left st1 \<and> left st1 < left st \<and> st' \<in> set (ms (Star x) st1)"
    then obtain st1 where a: "st1 \<in> set (ms x (clearCaps (groupsOf x) st))"
      and l: "0 \<le> left st1 \<and> left st1 < left st" and b: "st' \<in> set (ms (Star x) st1)"
      by auto
    have "map_of (caps st1) i = map_of (caps (clearCaps (groupsOf x) st)) i"
      using 7(1) [OF a] 7(4) by simp
    moreover have "map_of (caps st') i = map_of (caps st1) i"
      using 7(2) [OF a l b] 7(4) by simp
    ultimately show ?thesis
      using 7(4) by (simp add: clearCaps_keeps)
  qed
next
  case (8 x st)
  then show ?case by (auto simp: clearCaps_keeps)
next
  case (9 j x p n r a c)
  from 9(2) obtain st1 where a: "st1 \<in> set (ms x (MState p n r [] c))"
    and e: "st' = (case st1 of MState p' n' r' a' c' \<Rightarrow> MState p' n' r' (a' @ a) ((j, rev a') # c'))"
    by auto
  have "map_of (caps st1) i = map_of c i"
    using 9(1) [OF a] 9(3) by simp
  then show ?case
    using e 9(3) by (cases st1) simp
qed

lemma ms_sets:
  "st' \<in> set (ms r st) \<Longrightarrow> setsGroup r i \<Longrightarrow> map_of (caps st') i \<noteq> None"
proof (induction r arbitrary: st st')
  case (Seq x y)
  from Seq.prems(1) obtain st1 where a: "st1 \<in> set (ms x st)" and b: "st' \<in> set (ms y st1)"
    by auto
  from Seq.prems(2) consider "setsGroup x i \<and> i \<notin> set (groupsOf y)" | "setsGroup y i"
    by auto
  then show ?case
  proof cases
    case 1
    then have "map_of (caps st1) i \<noteq> None"
      using Seq.IH(1) [OF a] by simp
    then show ?thesis
      using ms_keeps [OF b] 1 by simp
  next
    case 2
    then show ?thesis
      using Seq.IH(2) [OF b] by simp
  qed
next
  case (Alt x y)
  then show ?case by auto
next
  case (Group j x)
  obtain p n r a c where st: "st = MState p n r a c"
    by (cases st)
  from Group.prems(1) obtain st1 where a: "st1 \<in> set (ms x (MState p n r [] c))"
    and e: "st' = (case st1 of MState p' n' r' a' c' \<Rightarrow> MState p' n' r' (a' @ a) ((j, rev a') # c'))"
    unfolding st by auto
  show ?case
  proof (cases "i = j")
    case True
    then show ?thesis using e by (cases st1) simp
  next
    case False
    then have "setsGroup x i" using Group.prems(2) by simp
    then have "map_of (caps st1) i \<noteq> None"
      using Group.IH [OF a] by simp
    then show ?thesis using e False by (cases st1) simp
  qed
qed simp_all

lemma matchAllFrom_sets:
  "m \<in> set (matchAllFrom r p i n skip s) \<Longrightarrow> setsGroup r g \<Longrightarrow> groupAt m g \<noteq> None"
proof (induction r p i n skip s rule: matchAllFrom.induct)
  case (1 r p i n skip)
  show ?case
  proof (cases "ms r (MState p n [] [] [])")
    case Nil
    then show ?thesis using 1 by (simp split: if_splits)
  next
    case (Cons st sts)
    then have "st \<in> set (ms r (MState p n [] [] []))"
      by simp
    then have "map_of (caps st) g \<noteq> None"
      using ms_sets 1(2) by blast
    then show ?thesis
      using 1 Cons by (auto simp: groupAt_def split: if_splits)
  qed
next
  case (2 r p i n skip x xs)
  show ?case
  proof (cases "0 < skip")
    case True
    then show ?thesis using 2 by simp
  next
    case False
    show ?thesis
    proof (cases "ms r (MState p n (x # xs) [] [])")
      case Nil
      then show ?thesis using 2 False by simp
    next
      case (Cons st sts)
      then have "st \<in> set (ms r (MState p n (x # xs) [] []))"
        by simp
      then have "map_of (caps st) g \<noteq> None"
        using ms_sets 2(5) by blast
      then show ?thesis
        using 2 False Cons by (auto simp: groupAt_def)
    qed
  qed
qed

lemma searchFrom_sets:
  "searchFrom r p i n s = Some m \<Longrightarrow> setsGroup r g \<Longrightarrow> groupAt m g \<noteq> None"
proof (induction r p i n s rule: searchFrom.induct)
  case (1 r p i n)
  show ?case
  proof (cases "ms r (MState p n [] [] [])")
    case Nil
    then show ?thesis using 1 by simp
  next
    case (Cons st sts)
    then have "st \<in> set (ms r (MState p n [] [] []))"
      by simp
    then have "map_of (caps st) g \<noteq> None"
      using ms_sets 1(2) by blast
    then show ?thesis
      using 1 Cons by (auto simp: groupAt_def)
  qed
next
  case (2 r p i n x xs)
  show ?case
  proof (cases "ms r (MState p n (x # xs) [] [])")
    case Nil
    then show ?thesis using 2 by simp
  next
    case (Cons st sts)
    then have "st \<in> set (ms r (MState p n (x # xs) [] []))"
      by simp
    then have "map_of (caps st) g \<noteq> None"
      using ms_sets 2(3) by blast
    then show ?thesis
      using 2 Cons by (auto simp: groupAt_def)
  qed
qed

lemma setsGroup_regexes:
  "setsGroup pragmaRegex 1" "setsGroup importRegex 1"
  "setsGroup contractRegex 1" "setsGroup contractRegex 2"
  "setsGroup varRegex 1" "setsGroup varRegex 2"
  "setsGroup (varVisibilityRegex t) 1"
  "setsGroup fnRegex 1" "setsGroup fnRegex 2"
  "setsGroup visibilityRegex 1" "setsGroup mutabilityRegex 1"
  "setsGroup eventRegex 1" "setsGroup eventRegex 2"
  "setsGroup ctorRegex 1"
  by (simp_all add: pragmaRegex_def importRegex_def contractRegex_def varRegex_def
      varVisibilityRegex_def fnRegex_def visibilityRegex_def mutabilityRegex_def eventRegex_def
      ctorRegex_def Plus_def)

lemma matchAll_groups_defined:
  "m \<in> set (matchAll r s) \<Longrightarrow> setsGroup r g \<Longrightarrow> groupAt m g \<noteq> None"
  unfolding matchAll_def by (rule matchAllFrom_sets)

lemma jsMatch_groups_defined:
  "jsMatch s r = Some m \<Longrightarrow> setsGroup r g \<Longrightarrow> groupAt m g \<noteq> None"
  unfolding jsMatch_def by (rule searchFrom_sets)

section \<open>Malformed input\<close>

lemma regexFallbackParser_errors: "errors (regexFallbackParser source) = []"
  by (simp add: regexFallbackParser_def buildResult_def Let_def)

lemma unterminated_eval:
  "map (\<lambda>m. (grp m 2, scanBody unterminated (index m + length (m0 m)) 1))
       (matchAll contractRegex unterminated) = [(''A'', 22), (''B'', 57)]
   \<and> length unterminated = 57"
  by code_simp

lemma contractOf_name: "c_name (contractOf source m) = grp m 2"
  by (simp add: contractOf_def Let_def)

lemma map_pair_eq:
  "map (\<lambda>m. (f m, g m)) xs = ps \<Longrightarrow> map f xs = map fst ps \<and> map g xs = map snd ps"
  by (induction xs arbitrary: ps) auto

text \<open>
  Claim C2, as amended. For every source, so also for one whose last declaration has an
  opening brace that is never closed, the analysis with no parser installed returns a
  result (the model is a total function: the loop of the body scan ends at the end of the
  text, and every group that is read is defined); the \<open>errors\<close> of the result are empty;
  the contracts are the records of all matched declarations in source order, so those
  before the fault are among them. The witness is the source of scenario 6.
\<close>

theorem unterminated_brace_result:
  "errors (parseSolidity None source) = []
   \<and> contracts (parseSolidity None source)
       = map (contractOf source) (matchAll contractRegex source)
   \<and> map c_name (contracts (parseSolidity None source))
       = map (\<lambda>m. grp m 2) (matchAll contractRegex source)
   \<and> (\<forall>m \<in> set (matchAll contractRegex source). groupAt m 1 \<noteq> None \<and> groupAt m 2 \<noteq> None)"
proof -
  have g: "groupAt m 1 \<noteq> None \<and> groupAt m 2 \<noteq> None"
    if "m \<in> set (matchAll contractRegex source)" for m
    using matchAll_groups_defined [OF that] setsGroup_regexes(3,4) by blast
  have p: "parseSolidity None source = regexFallbackParser source"
    by (simp add: parseSolidity_def)
  show ?thesis
    unfolding p using g
    by (simp add: regexFallbackParser_errors regexFallbackParser_contracts contractOf_name)
qed

theorem unterminated_brace_result_witness:
  "map (\<lambda>m. scanBody unterminated (index m + length (m0 m)) 1)
       (matchAll contractRegex unterminated) = [22, length unterminated]
   \<and> map c_name (contracts (parseSolidity None unterminated)) = [''A'', ''B'']
   \<and> errors (parseSolidity None unterminated) = []"
proof -
  have a: "map c_name (contracts (parseSolidity None unterminated))
          = map (\<lambda>m. grp m 2) (matchAll contractRegex unterminated)"
    and b: "errors (parseSolidity None unterminated) = []"
    using unterminated_brace_result [of unterminated] by blast+
  have "map (\<lambda>m. grp m 2) (matchAll contractRegex unterminated) = [''A'', ''B'']"
    and "map (\<lambda>m. scanBody unterminated (index m + length (m0 m)) 1)
       (matchAll contractRegex unterminated) = [22, length unterminated]"
    using map_pair_eq [OF conjunct1 [OF unterminated_eval]] conjunct2 [OF unterminated_eval]
    by simp_all
  then show ?thesis
    using a b by simp
qed

text \<open>
  Claim C2 as stated fails: in the source of scenario 6 the scan of the second declaration
  runs to the end of the text, and the \<open>errors\<close> of the result are empty.
\<close>

theorem unterminated_brace_counterexample:
  "map (\<lambda>m. scanBody unterminated (index m + length (m0 m)) 1)
       (matchAll contractRegex unterminated) = [22, length unterminated]
   \<and> errors (parseSolidity None unterminated) = []"
proof -
  have "map (\<lambda>m. scanBody unterminated (index m + length (m0 m)) 1)
       (matchAll contractRegex unterminated) = [22, length unterminated]"
    using map_pair_eq [OF conjunct1 [OF unterminated_eval]] conjunct2 [OF unterminated_eval]
    by simp
  moreover have "errors (parseSolidity None unterminated) = []"
    by (simp add: parseSolidity_def regexFallbackParser_errors)
  ultimately show ?thesis
    by simp
qed

end
